theory Spec2Isabelle
  imports Complex_Main "HOL-Library.AList"
begin

section \<open>Data model of heredity.py\<close>

text \<open>
  Python floats are idealised as the real numbers: every sum, product and quotient below
  is exact. A person is identified by a name; a parent reference that may be \<open>None\<close>
  is a \<open>name option\<close>. Python sets of names are HOL sets, dictionaries are association
  lists in insertion order.
\<close>

type_synonym name = string

datatype error = KeyError | ZeroDivisionError

text \<open>One entry of the dictionary returned by \<open>load_data\<close>.\<close>

record person =
  name :: name
  mother :: "name option"
  father :: "name option"
  trait :: "bool option"

type_synonym people = "(name \<times> person) list"

text \<open>One row handed out by \<open>csv.DictReader\<close>: the four fields, as strings.\<close>

record row =
  row_name :: string
  row_mother :: string
  row_father :: string
  row_trait :: string

text \<open>\<open>probabilities[person]\<close>: the two inner dictionaries, in the order of their keys.\<close>

record dists =
  gene_dist :: "(nat \<times> real) list"
  trait_dist :: "(bool \<times> real) list"

type_synonym probabilities = "(name \<times> dists) list"

subsection \<open>Dictionary access\<close>

text \<open>\<open>d[k]\<close>: raises \<open>KeyError\<close> on a missing key.\<close>

definition lookup :: "('k \<times> 'v) list \<Rightarrow> 'k \<Rightarrow> error + 'v" where
  "lookup d k = (case map_of d k of None \<Rightarrow> Inl KeyError | Some v \<Rightarrow> Inr v)"

text \<open>\<open>values[k] += p\<close>: reads the old value (or raises), stores the sum in place.\<close>

definition add_at :: "'k \<Rightarrow> real \<Rightarrow> ('k \<times> real) list \<Rightarrow> error + ('k \<times> real) list" where
  "add_at k p vals =
     (case map_of vals k of
        None \<Rightarrow> Inl KeyError
      | Some v \<Rightarrow> Inr (AList.update k (v + p) vals))"

text \<open>A \<open>for\<close> loop whose body may raise: the first exception ends the loop.\<close>

fun for_loop :: "('s \<Rightarrow> 'a \<Rightarrow> error + 's) \<Rightarrow> 's \<Rightarrow> 'a list \<Rightarrow> error + 's" where
  "for_loop body s [] = Inr s"
| "for_loop body s (x # xs) =
     (case body s x of Inl e \<Rightarrow> Inl e | Inr s' \<Rightarrow> for_loop body s' xs)"

subsection \<open>The constant table \<open>PROBS\<close>\<close>

definition PROBS_gene :: "nat \<Rightarrow> error + real" where
  "PROBS_gene k =
     (if k = 2 then Inr 0.01
      else if k = 1 then Inr 0.03
      else if k = 0 then Inr 0.96
      else Inl KeyError)"

definition PROBS_trait :: "nat \<Rightarrow> bool \<Rightarrow> error + real" where
  "PROBS_trait k t =
     (if k = 2 then Inr (if t then 0.65 else 0.35)
      else if k = 1 then Inr (if t then 0.56 else 0.44)
      else if k = 0 then Inr (if t then 0.01 else 0.99)
      else Inl KeyError)"

definition PROBS_mutation :: real where
  "PROBS_mutation = 0.01"

section \<open>The functions of heredity.py\<close>

subsection \<open>\<open>load_data\<close>\<close>

text \<open>
  \<open>row["mother"] or None\<close>: the empty string is falsy and becomes \<open>None\<close>.
\<close>

definition or_None :: "string \<Rightarrow> string option" where
  "or_None s = (if s = [] then None else Some s)"

definition load_row :: "people \<Rightarrow> row \<Rightarrow> people" where
  "load_row data r =
     (let nm = row_name r in
      AList.update nm
        \<lparr> name = nm,
          mother = or_None (row_mother r),
          father = or_None (row_father r),
          trait = (if row_trait r = ''1'' then Some True
                   else if row_trait r = ''0'' then Some False else None) \<rparr>
        data)"

definition load_data :: "row list \<Rightarrow> people" where
  "load_data rows = foldl load_row [] rows"

subsection \<open>\<open>powerset\<close>\<close>

text \<open>
  \<open>itertools.combinations(s, r)\<close>: the sublists of length \<open>r\<close>, in the lexicographic
  order of their positions.
\<close>

fun combinations :: "'a list \<Rightarrow> nat \<Rightarrow> 'a list list" where
  "combinations xs 0 = [[]]"
| "combinations [] (Suc r) = []"
| "combinations (x # xs) (Suc r) =
     map ((#) x) (combinations xs r) @ combinations xs (Suc r)"

text \<open>
  \<open>powerset\<close> receives the elements of the set as the list \<open>list(s)\<close> and chains the
  combinations of every length \<open>0 .. len(s)\<close>.
\<close>

definition powerset :: "'a list \<Rightarrow> 'a set list" where
  "powerset s = map set (concat (map (combinations s) [0 ..< length s + 1]))"

subsection \<open>\<open>get_trait\<close>, \<open>get_nbr_genes\<close>, \<open>get_parent_prob\<close>\<close>

text \<open>
  \<open>x in s\<close> for a set of names and a value that is a name or \<open>None\<close>: \<open>None\<close> is a
  member of no such set.
\<close>

definition py_in :: "name option \<Rightarrow> name set \<Rightarrow> bool" where
  "py_in x s = (case x of None \<Rightarrow> False | Some n \<Rightarrow> n \<in> s)"

definition get_trait :: "name \<Rightarrow> name set \<Rightarrow> bool" where
  "get_trait person have_trait = (if person \<in> have_trait then True else False)"

definition get_nbr_genes :: "name option \<Rightarrow> name set \<Rightarrow> name set \<Rightarrow> nat" where
  "get_nbr_genes person one_gene two_genes =
     (if py_in person two_genes then 2
      else if py_in person one_gene then 1
      else 0)"

definition get_parent_prob :: "name option \<Rightarrow> name set \<Rightarrow> name set \<Rightarrow> real" where
  "get_parent_prob parent one_gene two_genes =
     (let nbr_genes = get_nbr_genes parent one_gene two_genes in
      if nbr_genes = 0 then 0.01
      else if nbr_genes = 1 then 0.5
      else 0.99)"

subsection \<open>\<open>joint_probability\<close>\<close>

text \<open>The three formulas for a child's gene count, given both transmission probabilities.\<close>

definition child_gene_prob :: "nat \<Rightarrow> real \<Rightarrow> real \<Rightarrow> real" where
  "child_gene_prob this_genes prob_mother prob_father =
     (if this_genes = 0 then (1 - prob_mother) * (1 - prob_father)
      else if this_genes = 1 then
        (1 - prob_mother) * prob_father + prob_mother * (1 - prob_father)
      else prob_father * prob_mother)"

text \<open>One pass of the loop body: \<open>joint_p *= gene_prob * trait_prob\<close>.\<close>

definition joint_step ::
  "people \<Rightarrow> name set \<Rightarrow> name set \<Rightarrow> name set \<Rightarrow> real \<Rightarrow> name \<Rightarrow> error + real" where
  "joint_step people one_gene two_genes have_trait joint_p person =
     (let this_genes = get_nbr_genes (Some person) one_gene two_genes in
      case lookup people person of
        Inl e \<Rightarrow> Inl e
      | Inr entry \<Rightarrow>
          (case (if mother entry = None then PROBS_gene this_genes
                 else
                   (let prob_mother = get_parent_prob (mother entry) one_gene two_genes;
                        prob_father = get_parent_prob (father entry) one_gene two_genes
                    in Inr (child_gene_prob this_genes prob_mother prob_father))) of
             Inl e \<Rightarrow> Inl e
           | Inr gene_prob \<Rightarrow>
               (case PROBS_trait this_genes (get_trait person have_trait) of
                  Inl e \<Rightarrow> Inl e
                | Inr trait_prob \<Rightarrow> Inr (joint_p * (gene_prob * trait_prob)))))"

definition joint_probability ::
  "people \<Rightarrow> name set \<Rightarrow> name set \<Rightarrow> name set \<Rightarrow> error + real" where
  "joint_probability people one_gene two_genes have_trait =
     for_loop (joint_step people one_gene two_genes have_trait) 1 (map fst people)"

subsection \<open>\<open>update\<close>\<close>

definition update_entry ::
  "name set \<Rightarrow> name set \<Rightarrow> name set \<Rightarrow> real \<Rightarrow> name \<times> dists \<Rightarrow> error + name \<times> dists" where
  "update_entry one_gene two_genes have_trait p e =
     (let person = fst e;
          nbr_genes = get_nbr_genes (Some person) one_gene two_genes in
      case add_at nbr_genes p (gene_dist (snd e)) of
        Inl err \<Rightarrow> Inl err
      | Inr g \<Rightarrow>
          (case add_at (get_trait person have_trait) p (trait_dist (snd e)) of
             Inl err \<Rightarrow> Inl err
           | Inr t \<Rightarrow> Inr (person, \<lparr> gene_dist = g, trait_dist = t \<rparr>)))"

text \<open>
  The loop over the persons of \<open>probabilities\<close> changes the entry of each person in
  place; the entries are traversed in order and the changed ones collected.
\<close>

fun update ::
  "probabilities \<Rightarrow> name set \<Rightarrow> name set \<Rightarrow> name set \<Rightarrow> real \<Rightarrow> error + probabilities" where
  "update [] one_gene two_genes have_trait p = Inr []"
| "update (e # es) one_gene two_genes have_trait p =
     (case update_entry one_gene two_genes have_trait p e of
        Inl err \<Rightarrow> Inl err
      | Inr e' \<Rightarrow>
          (case update es one_gene two_genes have_trait p of
             Inl err \<Rightarrow> Inl err
           | Inr es' \<Rightarrow> Inr (e' # es')))"

subsection \<open>\<open>normalize\<close>\<close>

text \<open>
  One inner dictionary: \<open>this_sum\<close> is taken once, then every value is divided by it;
  the first division by zero raises. A dictionary without values is left alone.
\<close>

definition normalize_dist :: "('k \<times> real) list \<Rightarrow> error + ('k \<times> real) list" where
  "normalize_dist vals =
     (let this_sum = sum_list (map snd vals) in
      if vals \<noteq> [] \<and> this_sum = 0 then Inl ZeroDivisionError
      else Inr (map (\<lambda>(k, v). (k, v / this_sum)) vals))"

definition normalize_entry :: "name \<times> dists \<Rightarrow> error + name \<times> dists" where
  "normalize_entry e =
     (case normalize_dist (gene_dist (snd e)) of
        Inl err \<Rightarrow> Inl err
      | Inr g \<Rightarrow>
          (case normalize_dist (trait_dist (snd e)) of
             Inl err \<Rightarrow> Inl err
           | Inr t \<Rightarrow> Inr (fst e, \<lparr> gene_dist = g, trait_dist = t \<rparr>)))"

fun normalize :: "probabilities \<Rightarrow> error + probabilities" where
  "normalize [] = Inr []"
| "normalize (e # es) =
     (case normalize_entry e of
        Inl err \<Rightarrow> Inl err
      | Inr e' \<Rightarrow>
          (case normalize es of
             Inl err \<Rightarrow> Inl err
           | Inr es' \<Rightarrow> Inr (e' # es')))"

subsection \<open>\<open>main\<close>\<close>

text \<open>
  \<open>names = set(people)\<close>: the keys of the dictionary. Where the program lists a set
  (\<open>list(s)\<close> in \<open>powerset\<close>) the model lists its elements in the order of the keys.
\<close>

definition names_of :: "people \<Rightarrow> name list" where
  "names_of people = map fst people"

definition init_probabilities :: "people \<Rightarrow> probabilities" where
  "init_probabilities people =
     map (\<lambda>person. (person, \<lparr> gene_dist = [(2, 0), (1, 0), (0, 0)],
                              trait_dist = [(True, 0), (False, 0)] \<rparr>))
         (map fst people)"

text \<open>\<open>any(...)\<close> over the names: stops at the first person whose evidence is violated.\<close>

fun fails_evidence :: "people \<Rightarrow> name list \<Rightarrow> name set \<Rightarrow> error + bool" where
  "fails_evidence people [] have_trait = Inr False"
| "fails_evidence people (person # rest) have_trait =
     (case lookup people person of
        Inl e \<Rightarrow> Inl e
      | Inr entry \<Rightarrow>
          if trait entry \<noteq> None \<and> trait entry \<noteq> Some (person \<in> have_trait) then Inr True
          else fails_evidence people rest have_trait)"

text \<open>The body of the innermost loop: one joint probability, one update.\<close>

definition hypothesis_body ::
  "people \<Rightarrow> name set \<Rightarrow> name set \<Rightarrow> probabilities \<Rightarrow> name set \<Rightarrow> error + probabilities" where
  "hypothesis_body people have_trait one_gene probs two_genes =
     (case joint_probability people one_gene two_genes have_trait of
        Inl e \<Rightarrow> Inl e
      | Inr p \<Rightarrow> update probs one_gene two_genes have_trait p)"

text \<open>\<open>names - one_gene\<close>, listed.\<close>

definition names_minus :: "name list \<Rightarrow> name set \<Rightarrow> name list" where
  "names_minus names one_gene = filter (\<lambda>x. x \<notin> one_gene) names"

definition one_gene_body ::
  "people \<Rightarrow> name list \<Rightarrow> name set \<Rightarrow> probabilities \<Rightarrow> name set \<Rightarrow> error + probabilities" where
  "one_gene_body people names have_trait probs one_gene =
     for_loop (hypothesis_body people have_trait one_gene) probs
       (powerset (names_minus names one_gene))"

definition have_trait_body ::
  "people \<Rightarrow> name list \<Rightarrow> probabilities \<Rightarrow> name set \<Rightarrow> error + probabilities" where
  "have_trait_body people names probs have_trait =
     (case fails_evidence people names have_trait of
        Inl e \<Rightarrow> Inl e
      | Inr fails \<Rightarrow>
          if fails then Inr probs
          else for_loop (one_gene_body people names have_trait) probs (powerset names))"

text \<open>The three nested loops of \<open>main\<close>, before \<open>normalize\<close>.\<close>

definition accumulate :: "people \<Rightarrow> error + probabilities" where
  "accumulate people =
     for_loop (have_trait_body people (names_of people)) (init_probabilities people)
       (powerset (names_of people))"

text \<open>\<open>main\<close> from the loaded dictionary to the table it prints.\<close>

definition main :: "people \<Rightarrow> error + probabilities" where
  "main people =
     (case accumulate people of
        Inl e \<Rightarrow> Inl e
      | Inr probs \<Rightarrow> normalize probs)"


section \<open>The model of the specification\<close>

text \<open>
  The factors that the specification assigns to one individual under a hypothesis, written
  from its words: the hypothesised gene count (one copy for the members of \<open>one\<close>, two for
  the members of \<open>two\<close>, none otherwise), the unconditional prior, the transmission
  probability of a parent, the three formulas for a child, and the trait table. An
  individual with exactly one recorded parent has no factor.
\<close>

definition hypothesized_genes :: "name set \<Rightarrow> name set \<Rightarrow> name \<Rightarrow> nat" where
  "hypothesized_genes one two x = (if x \<in> one then 1 else if x \<in> two then 2 else 0)"

definition prior_table :: "nat \<Rightarrow> real" where
  "prior_table k = (if k = 2 then 0.01 else if k = 1 then 0.03 else 0.96)"

definition transmission :: "nat \<Rightarrow> real" where
  "transmission k =
     (if k = 0 then PROBS_mutation else if k = 1 then 0.5 else 1 - PROBS_mutation)"

definition child_formula :: "nat \<Rightarrow> real \<Rightarrow> real \<Rightarrow> real" where
  "child_formula k p_m p_f =
     (if k = 0 then (1 - p_m) * (1 - p_f)
      else if k = 1 then (1 - p_m) * p_f + p_m * (1 - p_f)
      else p_m * p_f)"

definition trait_table :: "nat \<Rightarrow> bool \<Rightarrow> real" where
  "trait_table k t =
     (if k = 2 then (if t then 0.65 else 0.35)
      else if k = 1 then (if t then 0.56 else 0.44)
      else (if t then 0.01 else 0.99))"

definition hypothesis_factor ::
  "name set \<Rightarrow> name set \<Rightarrow> name set \<Rightarrow> name \<times> person \<Rightarrow> real option" where
  "hypothesis_factor one two have_trait e =
     (let k = hypothesized_genes one two (fst e); t = (fst e \<in> have_trait) in
      case (mother (snd e), father (snd e)) of
        (None, None) \<Rightarrow> Some (prior_table k * trait_table k t)
      | (Some m, Some f) \<Rightarrow>
          Some (child_formula k (transmission (hypothesized_genes one two m))
                  (transmission (hypothesized_genes one two f)) * trait_table k t)
      | _ \<Rightarrow> None)"

definition both_or_neither :: "name \<times> person \<Rightarrow> bool" where
  "both_or_neither e = ((mother (snd e) = None) = (father (snd e) = None))"

text \<open>
  Evidence consistency: every individual with a known observed trait is in the trait
  hypothesis exactly when the observation is true; an unknown trait asks nothing.
\<close>

definition admissible :: "people \<Rightarrow> name set \<Rightarrow> bool" where
  "admissible people have_trait =
     list_all (\<lambda>e. case trait (snd e) of
                      None \<Rightarrow> True
                    | Some t \<Rightarrow> (fst e \<in> have_trait) = t) people"

section \<open>Invariants of the accumulated table\<close>

text \<open>The observed trait of a name: that of its entry in the population, if any.\<close>

definition observed :: "people \<Rightarrow> name \<Rightarrow> bool option" where
  "observed people n = (case map_of people n of None \<Rightarrow> None | Some entry \<Rightarrow> trait entry)"

text \<open>
  One person's tables during the accumulation: the keys are in place, no bucket is
  negative, both tables have the total \<open>S\<close>, and the bucket against a known observation
  is empty.
\<close>

definition entry_ok :: "people \<Rightarrow> real \<Rightarrow> name \<times> dists \<Rightarrow> bool" where
  "entry_ok people S e =
     (\<exists>a b c t f.
        snd e = \<lparr> gene_dist = [(2, a), (1, b), (0, c)],
                  trait_dist = [(True, t), (False, f)] \<rparr> \<and>
        0 \<le> a \<and> 0 \<le> b \<and> 0 \<le> c \<and> 0 \<le> t \<and> 0 \<le> f \<and>
        a + b + c = S \<and> t + f = S \<and>
        (observed people (fst e) = Some True \<longrightarrow> f = 0) \<and>
        (observed people (fst e) = Some False \<longrightarrow> t = 0))"

definition table_ok :: "people \<Rightarrow> real \<Rightarrow> probabilities \<Rightarrow> bool" where
  "table_ok people S probs =
     (map fst probs = map fst people \<and> list_all (entry_ok people S) probs)"

text \<open>A trait hypothesis that agrees with every known observation, by name.\<close>

definition consistent :: "people \<Rightarrow> name set \<Rightarrow> bool" where
  "consistent people have_trait =
     (\<forall>n t. observed people n = Some t \<longrightarrow> (n \<in> have_trait) = t)"

text \<open>Tables with some total that is not negative, and with some positive total.\<close>

definition mass_ge :: "people \<Rightarrow> probabilities \<Rightarrow> bool" where
  "mass_ge people probs = (\<exists>S. 0 \<le> S \<and> table_ok people S probs)"

definition mass_gt :: "people \<Rightarrow> probabilities \<Rightarrow> bool" where
  "mass_gt people probs = (\<exists>S. 0 < S \<and> table_ok people S probs)"

text \<open>The trait hypothesis made of the persons observed with the trait.\<close>

definition observed_true :: "people \<Rightarrow> name set" where
  "observed_true people = {n \<in> set (names_of people). observed people n = Some True}"

text \<open>
  A normalised distribution, in the specification's words: the values sum to 1 and each
  is a probability in \<open>[0,1]\<close>.
\<close>

definition distribution :: "('k \<times> real) list \<Rightarrow> bool" where
  "distribution vals =
     (sum_list (map snd vals) = 1 \<and> list_all (\<lambda>kv. 0 \<le> snd kv \<and> snd kv \<le> 1) vals)"

section \<open>A sample family\<close>

text \<open>The family of three used to evaluate the functions at concrete inputs.\<close>

definition lily :: person where
  "lily = \<lparr> name = ''Lily'', mother = None, father = None, trait = Some False \<rparr>"

definition james :: person where
  "james = \<lparr> name = ''James'', mother = None, father = None, trait = Some True \<rparr>"

definition harry :: person where
  "harry = \<lparr> name = ''Harry'', mother = Some ''Lily'', father = Some ''James'',
             trait = None \<rparr>"

definition family :: people where
  "family = [(''Harry'', harry), (''James'', james), (''Lily'', lily)]"

text \<open>Two malformed populations: a father who is nobody, and a father left out.\<close>

definition dangling :: people where
  "dangling =
     [(''Harry'', \<lparr> name = ''Harry'', mother = Some ''Lily'', father = Some ''Ghost'',
                    trait = None \<rparr>),
      (''Lily'', lily)]"

definition one_parent :: people where
  "one_parent =
     [(''Harry'', \<lparr> name = ''Harry'', mother = Some ''Lily'', father = None,
                    trait = None \<rparr>),
      (''Lily'', lily)]"

text \<open>The rows of a file: the family, and two rows with trait markers that are not 0 or 1.\<close>

definition harry_row :: row where
  "harry_row = \<lparr> row_name = ''Harry'', row_mother = ''Lily'', row_father = ''James'',
                 row_trait = '''' \<rparr>"

definition james_row :: row where
  "james_row = \<lparr> row_name = ''James'', row_mother = '''', row_father = '''',
                 row_trait = ''1'' \<rparr>"

definition lily_row :: row where
  "lily_row = \<lparr> row_name = ''Lily'', row_mother = '''', row_father = '''',
                row_trait = ''0'' \<rparr>"

definition zoe_row :: row where
  "zoe_row = \<lparr> row_name = ''Zoe'', row_mother = '''', row_father = '''',
               row_trait = ''yes'' \<rparr>"

definition ann_row :: row where
  "ann_row = \<lparr> row_name = ''Ann'', row_mother = '''', row_father = '''',
               row_trait = ''2'' \<rparr>"

section \<open>Properties\<close>

subsection \<open>The child's gene-count formulas\<close>

text \<open>
  Claim C4. For transmission probabilities \<open>p_mother\<close> and \<open>p_father\<close> in \<open>[0,1]\<close>, the
  three probabilities that \<open>joint_probability\<close> derives for a child with 0, 1 and 2
  copies sum to exactly 1.
\<close>

theorem child_gene_probs_sum_to_one:
  "0 \<le> p_mother \<Longrightarrow> p_mother \<le> 1 \<Longrightarrow> 0 \<le> p_father \<Longrightarrow> p_father \<le> 1 \<Longrightarrow>
   child_gene_prob 0 p_mother p_father + child_gene_prob 1 p_mother p_father
     + child_gene_prob 2 p_mother p_father = 1"
  by (simp add: child_gene_prob_def algebra_simps)

theorem child_gene_probs_sum_to_one_witness:
  "(0::real) \<le> 0.01 \<and> (0.01::real) \<le> 1 \<and> (0::real) \<le> 0.5 \<and> (0.5::real) \<le> 1 \<and>
   child_gene_prob 0 0.01 0.5 + child_gene_prob 1 0.01 0.5 + child_gene_prob 2 0.01 0.5 = 1 \<and>
   child_gene_prob 0 0.01 0.5 = 0.495 \<and> child_gene_prob 1 0.01 0.5 = 0.5 \<and>
   child_gene_prob 2 0.01 0.5 = 0.005"
  using child_gene_probs_sum_to_one [of "0.01" "0.5"]
  by (simp add: child_gene_prob_def)

subsection \<open>Transmission probability of a parent\<close>

text \<open>
  Claim C9. \<open>get_parent_prob\<close> has a value for every argument and consults the two gene
  sets only: a parent that is in neither set counts as carrying 0 copies and transmits
  with probability 0.01. This covers \<open>None\<close> and, when the sets hold names of the
  population only, every name that is not in the population.
\<close>

theorem get_parent_prob_total:
  "(\<not> py_in parent two_genes \<and> \<not> py_in parent one_gene \<longrightarrow>
      get_nbr_genes parent one_gene two_genes = 0 \<and>
      get_parent_prob parent one_gene two_genes = 0.01) \<and>
   get_parent_prob None one_gene two_genes = 0.01 \<and>
   (one_gene \<subseteq> set (names_of people) \<and> two_genes \<subseteq> set (names_of people) \<and>
      n \<notin> set (names_of people) \<longrightarrow> get_parent_prob (Some n) one_gene two_genes = 0.01) \<and>
   get_parent_prob parent one_gene two_genes \<in> {0.01, 0.5, 0.99}"
  by (auto simp: get_parent_prob_def get_nbr_genes_def py_in_def Let_def)

theorem get_parent_prob_total_witness:
  "\<not> py_in (Some ''Zoe'') {''James''} \<and> \<not> py_in (Some ''Zoe'') {''Lily''} \<and>
   {''Lily''} \<subseteq> set (names_of [(''Lily'', lily), (''James'', james)]) \<and>
   {''James''} \<subseteq> set (names_of [(''Lily'', lily), (''James'', james)]) \<and>
   ''Zoe'' \<notin> set (names_of [(''Lily'', lily), (''James'', james)]) \<and>
   get_nbr_genes (Some ''Zoe'') {''Lily''} {''James''} = 0 \<and>
   get_parent_prob (Some ''Zoe'') {''Lily''} {''James''} = 0.01 \<and>
   get_parent_prob None {''Lily''} {''James''} = 0.01"
  using get_parent_prob_total
    [of "Some ''Zoe''" "{''James''}" "{''Lily''}" "[(''Lily'', lily), (''James'', james)]" "''Zoe''"]
  by (simp add: py_in_def names_of_def)

subsection \<open>The trait field read by \<open>load_data\<close>\<close>

lemma map_of_load_row_other:
  "k \<noteq> row_name r \<Longrightarrow> map_of (load_row data r) k = map_of data k"
  by (simp add: load_row_def Let_def update_conv')

lemma map_of_load_rows_other:
  "k \<notin> row_name ` set rows \<Longrightarrow> map_of (foldl load_row data rows) k = map_of data k"
  by (induction rows arbitrary: data) (simp_all add: map_of_load_row_other)

text \<open>
  Claim C10. For every row of the file whose name no later row reuses, the entry that
  \<open>load_data\<close> returns under that name has trait \<open>True\<close> when the row's trait field is the
  string "1", \<open>False\<close> when it is "0", and \<open>None\<close> for every other string, "2" and "yes"
  included: no trait marker is rejected.
\<close>

theorem load_data_trait_every_row:
  assumes "row_name r \<notin> row_name ` set later"
  shows "\<exists>p. map_of (load_data (earlier @ r # later)) (row_name r) = Some p \<and>
       (row_trait r = ''1'' \<longrightarrow> trait p = Some True) \<and>
       (row_trait r = ''0'' \<longrightarrow> trait p = Some False) \<and>
       (row_trait r \<noteq> ''1'' \<and> row_trait r \<noteq> ''0'' \<longrightarrow> trait p = None)"
proof -
  have "map_of (load_data (earlier @ r # later)) (row_name r)
      = map_of (load_row (foldl load_row [] earlier) r) (row_name r)"
    using map_of_load_rows_other [OF assms] by (simp add: load_data_def)
  then show ?thesis
    by (simp add: load_row_def Let_def update_conv')
qed

theorem load_data_trait_every_row_witness:
  "(\<exists>p. map_of (load_data [harry_row, james_row, lily_row, zoe_row, ann_row]) ''Harry''
          = Some p \<and> trait p = None) \<and>
   (\<exists>p. map_of (load_data [harry_row, james_row, lily_row, zoe_row, ann_row]) ''James''
          = Some p \<and> trait p = Some True) \<and>
   (\<exists>p. map_of (load_data [harry_row, james_row, lily_row, zoe_row, ann_row]) ''Lily''
          = Some p \<and> trait p = Some False) \<and>
   (\<exists>p. map_of (load_data [harry_row, james_row, lily_row, zoe_row, ann_row]) ''Zoe''
          = Some p \<and> trait p = None) \<and>
   (\<exists>p. map_of (load_data [harry_row, james_row, lily_row, zoe_row, ann_row]) ''Ann''
          = Some p \<and> trait p = None)"
proof -
  have n: "row_name harry_row = ''Harry''" "row_name james_row = ''James''"
    "row_name lily_row = ''Lily''" "row_name zoe_row = ''Zoe''" "row_name ann_row = ''Ann''"
    by (simp_all add: harry_row_def james_row_def lily_row_def zoe_row_def ann_row_def)
  have t: "row_trait harry_row = ''''" "row_trait james_row = ''1''"
    "row_trait lily_row = ''0''" "row_trait zoe_row = ''yes''" "row_trait ann_row = ''2''"
    by (simp_all add: harry_row_def james_row_def lily_row_def zoe_row_def ann_row_def)
  have a: "\<exists>p. map_of (load_data [harry_row, james_row, lily_row, zoe_row, ann_row]) ''Harry''
          = Some p \<and> trait p = None"
    using load_data_trait_every_row
      [of harry_row "[james_row, lily_row, zoe_row, ann_row]" "[]"]
    by (simp add: n t)
  have b: "\<exists>p. map_of (load_data [harry_row, james_row, lily_row, zoe_row, ann_row]) ''James''
          = Some p \<and> trait p = Some True"
    using load_data_trait_every_row
      [of james_row "[lily_row, zoe_row, ann_row]" "[harry_row]"]
    by (simp add: n t)
  have c: "\<exists>p. map_of (load_data [harry_row, james_row, lily_row, zoe_row, ann_row]) ''Lily''
          = Some p \<and> trait p = Some False"
    using load_data_trait_every_row
      [of lily_row "[zoe_row, ann_row]" "[harry_row, james_row]"]
    by (simp add: n t)
  have d: "\<exists>p. map_of (load_data [harry_row, james_row, lily_row, zoe_row, ann_row]) ''Zoe''
          = Some p \<and> trait p = None"
    using load_data_trait_every_row
      [of zoe_row "[ann_row]" "[harry_row, james_row, lily_row]"]
    by (simp add: n t)
  have e: "\<exists>p. map_of (load_data [harry_row, james_row, lily_row, zoe_row, ann_row]) ''Ann''
          = Some p \<and> trait p = None"
    using load_data_trait_every_row
      [of ann_row "[]" "[harry_row, james_row, lily_row, zoe_row]"]
    by (simp add: n t)
  from a b c d e show ?thesis by blast
qed

subsection \<open>The joint probability as a product\<close>

lemma lookup_distinct:
  "distinct (map fst d) \<Longrightarrow> (k, v) \<in> set d \<Longrightarrow> lookup d k = Inr v"
  by (simp add: lookup_def)

lemma lookup_key: "k \<in> fst ` set d \<Longrightarrow> \<exists>v. lookup d k = Inr v"
  by (cases "map_of d k") (auto simp: lookup_def map_of_eq_None_iff)

lemma genes_agree:
  "one \<inter> two = {} \<Longrightarrow> get_nbr_genes (Some x) one two = hypothesized_genes one two x"
  by (auto simp: get_nbr_genes_def hypothesized_genes_def py_in_def)

lemma parent_prob_agree:
  "one \<inter> two = {} \<Longrightarrow>
   get_parent_prob (Some x) one two = transmission (hypothesized_genes one two x)"
  by (auto simp: get_parent_prob_def genes_agree Let_def transmission_def PROBS_mutation_def
      hypothesized_genes_def)

lemma joint_step_factor:
  assumes "lookup people person = Inr entry" "one \<inter> two = {}" "both_or_neither (person, entry)"
  shows "\<exists>f. hypothesis_factor one two ht (person, entry) = Some f \<and>
             joint_step people one two ht jp person = Inr (jp * f)"
proof (cases "mother entry")
  case None
  with assms(3) have "father entry = None" by (simp add: both_or_neither_def)
  with None assms(1,2) show ?thesis
    by (simp add: hypothesis_factor_def joint_step_def Let_def genes_agree get_trait_def
        PROBS_gene_def PROBS_trait_def prior_table_def trait_table_def hypothesized_genes_def)
next
  case (Some m)
  with assms(3) obtain f where "father entry = Some f" by (auto simp: both_or_neither_def)
  with Some assms(1,2) show ?thesis
    by (simp add: hypothesis_factor_def joint_step_def Let_def genes_agree get_trait_def
        parent_prob_agree PROBS_trait_def trait_table_def child_gene_prob_def child_formula_def
        hypothesized_genes_def mult.commute)
qed

lemma joint_loop_factors:
  assumes "distinct (map fst people)" "one \<inter> two = {}"
  shows "set es \<subseteq> set people \<Longrightarrow> list_all both_or_neither es \<Longrightarrow>
    \<exists>fs. map (hypothesis_factor one two ht) es = map Some fs \<and>
         for_loop (joint_step people one two ht) jp (map fst es) = Inr (jp * prod_list fs)"
proof (induction es arbitrary: jp)
  case Nil
  then show ?case by simp
next
  case (Cons e es)
  obtain person entry where e: "e = (person, entry)" by (cases e)
  with Cons.prems have "lookup people person = Inr entry" "both_or_neither (person, entry)"
    using assms(1) by (auto intro: lookup_distinct)
  from joint_step_factor [OF this(1) assms(2) this(2), of ht jp]
  obtain f where f: "hypothesis_factor one two ht (person, entry) = Some f"
    "joint_step people one two ht jp person = Inr (jp * f)" by blast
  from Cons.IH [of "jp * f"] Cons.prems
  obtain fs where fs: "map (hypothesis_factor one two ht) es = map Some fs"
    "for_loop (joint_step people one two ht) (jp * f) (map fst es) = Inr (jp * f * prod_list fs)"
    by auto
  have "map (hypothesis_factor one two ht) (e # es) = map Some (f # fs)"
    using e f(1) fs(1) by simp
  moreover have "for_loop (joint_step people one two ht) jp (map fst (e # es))
      = Inr (jp * prod_list (f # fs))"
    using e f(2) fs(2) by (simp add: mult.assoc)
  ultimately show ?case by blast
qed

text \<open>
  Claim C1. For a population whose individuals record both parents or none, and a
  hypothesis with disjoint sets \<open>one_gene\<close> and \<open>two_genes\<close>, \<open>joint_probability\<close>
  returns the product over all individuals of the gene factor (the prior for a parentless
  individual, the child formula over the parents' transmission probabilities otherwise)
  times the trait-table entry for the individual's hypothesised gene count and trait.
\<close>

theorem joint_probability_product:
  assumes "distinct (map fst people)" "one_gene \<inter> two_genes = {}"
    "list_all both_or_neither people"
  shows "\<exists>fs. map (hypothesis_factor one_gene two_genes have_trait) people = map Some fs \<and>
              joint_probability people one_gene two_genes have_trait = Inr (prod_list fs)"
  using joint_loop_factors [OF assms(1,2) subset_refl assms(3), of have_trait 1]
  by (simp add: joint_probability_def)

theorem joint_probability_product_witness:
  "distinct (map fst family) \<and> {''Harry''} \<inter> {''James''} = ({} :: name set) \<and>
   list_all both_or_neither family \<and>
   map (hypothesis_factor {''Harry''} {''James''} {''James''}) family
     = map Some [0.431288, 0.0065, 0.9504] \<and>
   joint_probability family {''Harry''} {''James''} {''James''}
     = Inr (0.431288 * 0.0065 * 0.9504)"
proof -
  have d: "distinct (map fst family)"
    by (simp add: family_def)
  have i: "{''Harry''} \<inter> {''James''} = ({} :: name set)"
    by simp
  have w: "list_all both_or_neither family"
    by (simp add: family_def harry_def james_def lily_def both_or_neither_def)
  have m: "map (hypothesis_factor {''Harry''} {''James''} {''James''}) family
     = map Some [0.431288, 0.0065, 0.9504]"
    by (simp add: family_def harry_def james_def lily_def
      hypothesis_factor_def hypothesized_genes_def prior_table_def trait_table_def
      child_formula_def transmission_def PROBS_mutation_def)
  from joint_probability_product [OF d i w, of "{''James''}"] obtain fs where
    fs: "map (hypothesis_factor {''Harry''} {''James''} {''James''}) family = map Some fs"
      "joint_probability family {''Harry''} {''James''} {''James''} = Inr (prod_list fs)"
    by blast
  from fs(1) m have "map Some fs = map Some [0.431288, 0.0065, 0.9504 :: real]"
    by simp
  then have "fs = [0.431288, 0.0065, 0.9504]"
    by (simp only: inj_map_eq_map [OF inj_Some])
  with fs(2) have "joint_probability family {''Harry''} {''James''} {''James''}
     = Inr (0.431288 * 0.0065 * 0.9504)"
    by simp
  with d i w m show ?thesis by blast
qed

subsection \<open>The joint probability never fails\<close>

lemma get_nbr_genes_cases:
  "get_nbr_genes x one two = 0 \<or> get_nbr_genes x one two = 1 \<or> get_nbr_genes x one two = 2"
  by (simp add: get_nbr_genes_def)

lemma get_parent_prob_bounds:
  "0 < get_parent_prob x one two \<and> get_parent_prob x one two < 1"
  by (simp add: get_parent_prob_def Let_def)

lemma child_gene_prob_pos:
  assumes "0 < pm" "pm < 1" "0 < pf" "pf < 1"
  shows "0 < child_gene_prob k pm pf"
proof -
  have a: "0 < (1 - pm) * (1 - pf)" using assms by simp
  have b: "0 < (1 - pm) * pf" using assms by simp
  have c: "0 < pm * (1 - pf)" using assms by simp
  have d: "0 < pf * pm" using assms by simp
  from a b c d show ?thesis
    by (simp add: child_gene_prob_def add_pos_pos)
qed

lemma PROBS_gene_pos:
  assumes "k = 0 \<or> k = 1 \<or> k = 2"
  shows "\<exists>g. PROBS_gene k = Inr g \<and> 0 < g"
proof -
  have "PROBS_gene k = Inr (if k = 2 then 0.01 else if k = 1 then 0.03 else 0.96)"
    using assms by (auto simp: PROBS_gene_def)
  moreover have "0 < (if k = 2 then 0.01 else if k = 1 then 0.03 else 0.96 :: real)"
    by simp
  ultimately show ?thesis by blast
qed

lemma PROBS_trait_pos:
  assumes "k = 0 \<or> k = 1 \<or> k = 2"
  shows "\<exists>g. PROBS_trait k t = Inr g \<and> 0 < g"
proof -
  have "PROBS_trait k t =
      Inr (if k = 2 then (if t then 0.65 else 0.35)
           else if k = 1 then (if t then 0.56 else 0.44)
           else (if t then 0.01 else 0.99))"
    using assms by (auto simp: PROBS_trait_def)
  moreover have "0 < (if k = 2 then (if t then 0.65 else 0.35)
           else if k = 1 then (if t then 0.56 else 0.44)
           else (if t then 0.01 else 0.99 :: real))"
    by simp
  ultimately show ?thesis by blast
qed

lemma joint_step_pos:
  assumes "lookup people person = Inr entry" "0 < jp"
  shows "\<exists>jp'. joint_step people one two ht jp person = Inr jp' \<and> 0 < jp'"
proof -
  let ?k = "get_nbr_genes (Some person) one two"
  have k: "?k = 0 \<or> ?k = 1 \<or> ?k = 2" by (rule get_nbr_genes_cases)
  from PROBS_trait_pos [OF k] obtain tp where
    tp: "PROBS_trait ?k (get_trait person ht) = Inr tp" "0 < tp" by blast
  show ?thesis
  proof (cases "mother entry = None")
    case True
    from PROBS_gene_pos [OF k] obtain gp where gp: "PROBS_gene ?k = Inr gp" "0 < gp"
      by blast
    have "joint_step people one two ht jp person = Inr (jp * (gp * tp))"
      using True assms(1) gp(1) tp(1) by (simp add: joint_step_def Let_def)
    moreover have "0 < jp * (gp * tp)" using assms(2) gp(2) tp(2) by simp
    ultimately show ?thesis by blast
  next
    case False
    then obtain m where m: "mother entry = Some m" by blast
    let ?gp = "child_gene_prob ?k (get_parent_prob (mother entry) one two)
                 (get_parent_prob (father entry) one two)"
    have gp: "0 < ?gp"
      using get_parent_prob_bounds by (intro child_gene_prob_pos) simp_all
    have "joint_step people one two ht jp person = Inr (jp * (?gp * tp))"
      using m assms(1) tp(1) by (simp add: joint_step_def Let_def)
    moreover have "0 < jp * (?gp * tp)" using assms(2) gp tp(2) by simp
    ultimately show ?thesis by blast
  qed
qed

lemma joint_loop_pos:
  "set ks \<subseteq> fst ` set people \<Longrightarrow> 0 < jp \<Longrightarrow>
   \<exists>p. for_loop (joint_step people one two ht) jp ks = Inr p \<and> 0 < p"
proof (induction ks arbitrary: jp)
  case Nil
  then show ?case by simp
next
  case (Cons k ks)
  from Cons.prems(1) obtain entry where "lookup people k = Inr entry"
    using lookup_key [of k people] by auto
  from joint_step_pos [OF this Cons.prems(2)] obtain jp' where
    jp': "joint_step people one two ht jp k = Inr jp'" "0 < jp'" by blast
  from Cons.IH [of jp'] Cons.prems(1) jp'(2) obtain p where
    "for_loop (joint_step people one two ht) jp' ks = Inr p" "0 < p" by auto
  with jp'(1) show ?case by simp
qed

text \<open>
  Claim C7, as the code has it. \<open>joint_probability\<close> checks no parent reference: for every
  population, also one where a mother or father names nobody of the population or where
  only one parent is given, it raises no error and returns a number.
\<close>

theorem joint_probability_never_aborts:
  "\<exists>p. joint_probability people one_gene two_genes have_trait = Inr p"
proof -
  have "\<exists>p. for_loop (joint_step people one_gene two_genes have_trait) 1 (map fst people)
             = Inr p \<and> 0 < p"
    by (rule joint_loop_pos) simp_all
  then show ?thesis by (auto simp: joint_probability_def)
qed

theorem joint_probability_never_aborts_witness:
  "\<exists>p. joint_probability one_parent {} {''Lily''} {} = Inr p"
  by (rule joint_probability_never_aborts)

text \<open>
  For Claim C7 as stated: Harry's father \<open>Ghost\<close> is not in the population, and in the
  second population Harry has a mother only; both computations return a number.
\<close>

theorem joint_probability_dangling_parent:
  "lookup dangling ''Ghost'' = Inl KeyError \<and>
   joint_probability dangling {} {} {} = Inr (0.970299 * 0.9504) \<and>
   joint_probability one_parent {} {} {} = Inr (0.970299 * 0.9504)"
  by (simp add: dangling_def one_parent_def lily_def joint_probability_def joint_step_def
      lookup_def get_nbr_genes_def py_in_def get_parent_prob_def get_trait_def Let_def
      PROBS_gene_def PROBS_trait_def child_gene_prob_def)

subsection \<open>Normalising totals that are zero\<close>

lemma normalize_dist_zero:
  "vals \<noteq> [] \<Longrightarrow> sum_list (map snd vals) = 0 \<Longrightarrow> normalize_dist vals = Inl ZeroDivisionError"
  by (simp add: normalize_dist_def)

text \<open>
  Claim C8, as the code has it. When every bucket total of a non-empty table is zero,
  \<open>normalize\<close> fails at its first division with the arithmetic error
  \<open>ZeroDivisionError\<close>; the program has no error of its own for this case.
\<close>

theorem normalize_zero_totals:
  assumes "probs \<noteq> []"
    and "list_all (\<lambda>e. gene_dist (snd e) \<noteq> [] \<and> sum_list (map snd (gene_dist (snd e))) = 0 \<and>
                      sum_list (map snd (trait_dist (snd e))) = 0) probs"
  shows "normalize probs = Inl ZeroDivisionError"
proof (cases probs)
  case Nil
  with assms(1) show ?thesis by simp
next
  case (Cons e es)
  with assms(2) have "normalize_dist (gene_dist (snd e)) = Inl ZeroDivisionError"
    by (simp add: normalize_dist_zero)
  with Cons show ?thesis by (simp add: normalize_entry_def)
qed

theorem normalize_zero_totals_witness:
  "init_probabilities family \<noteq> [] \<and>
   list_all (\<lambda>e. gene_dist (snd e) \<noteq> [] \<and> sum_list (map snd (gene_dist (snd e))) = 0 \<and>
                      sum_list (map snd (trait_dist (snd e))) = 0) (init_probabilities family) \<and>
   normalize (init_probabilities family) = Inl ZeroDivisionError"
proof -
  have a: "init_probabilities family \<noteq> []"
    by (simp add: init_probabilities_def family_def)
  have b: "list_all (\<lambda>e. gene_dist (snd e) \<noteq> [] \<and> sum_list (map snd (gene_dist (snd e))) = 0 \<and>
                      sum_list (map snd (trait_dist (snd e))) = 0) (init_probabilities family)"
    by (simp add: init_probabilities_def family_def)
  from a b normalize_zero_totals [OF a b] show ?thesis by blast
qed

text \<open>
  For Claim C8 as stated: on a table whose buckets are all zero the error that comes out is
  the generic \<open>ZeroDivisionError\<close>.
\<close>

theorem normalize_generic_error:
  "normalize [(''Lily'', \<lparr> gene_dist = [(2, 0), (1, 0), (0, 0)],
                           trait_dist = [(True, 0), (False, 0)] \<rparr>)] = Inl ZeroDivisionError"
  by (simp add: normalize_entry_def normalize_dist_def)

subsection \<open>The subsets listed by \<open>powerset\<close>\<close>

lemma Nil_in_subseqs: "[] \<in> set (subseqs xs)"
  by (induction xs) (auto simp: Let_def)

lemma length_subseqs_le: "ys \<in> set (subseqs xs) \<Longrightarrow> length ys \<le> length xs"
  by (induction xs arbitrary: ys) (fastforce simp: Let_def)+


lemma set_combinations:
  "set (combinations xs r) = {ys \<in> set (subseqs xs). length ys = r}"
proof (induction xs r rule: combinations.induct)
  case (1 xs)
  then show ?case using Nil_in_subseqs [of xs] by auto
next
  case (2 r)
  then show ?case by simp
next
  case (3 x xs r)
  then show ?case by (auto simp: Let_def)
qed



lemma set_chain:
  "set (concat (map (combinations xs) [0 ..< length xs + 1])) = set (subseqs xs)"
proof -
  have "set (concat (map (combinations xs) [0 ..< m]))
      = {ys \<in> set (subseqs xs). length ys < m}" for m
    by (induction m) (auto simp: set_combinations)
  then have "set (concat (map (combinations xs) [0 ..< length xs + 1]))
      = {ys \<in> set (subseqs xs). length ys < length xs + 1}" .
  moreover have "{ys \<in> set (subseqs xs). length ys < length xs + 1} = set (subseqs xs)"
    using length_subseqs_le [of _ xs] by (auto simp: less_Suc_eq_le)
  ultimately show ?thesis by (rule trans)
qed

lemma set_powerset: "set (powerset xs) = Pow (set xs)"
  unfolding powerset_def set_map set_chain by (rule subseqs_powset)















subsection \<open>The evidence filter\<close>

lemma fails_evidence_entries:
  assumes "distinct (map fst people)"
  shows "set es \<subseteq> set people \<Longrightarrow>
    fails_evidence people (map fst es) have_trait = Inr (\<not> admissible es have_trait)"
proof (induction es)
  case Nil
  then show ?case by (simp add: admissible_def)
next
  case (Cons e es)
  obtain person entry where e: "e = (person, entry)" by (cases e)
  with Cons.prems assms have l: "lookup people person = Inr entry"
    by (auto intro: lookup_distinct)
  from Cons have IH: "fails_evidence people (map fst es) have_trait
      = Inr (\<not> admissible es have_trait)" by simp
  show ?case
    using e l IH by (cases "trait entry") (auto simp: admissible_def)
qed

text \<open>
  Claim C3. For a candidate trait subset, \<open>fails_evidence\<close> is false exactly when the
  subset is admissible; then the body of the outer loop runs the gene-hypothesis loops,
  and for an inadmissible subset it leaves the table as it is and runs nothing.
\<close>

theorem evidence_filter:
  assumes "distinct (map fst people)"
  shows "fails_evidence people (names_of people) have_trait
           = Inr (\<not> admissible people have_trait) \<and>
         have_trait_body people (names_of people) probs have_trait
           = (if admissible people have_trait
              then for_loop (one_gene_body people (names_of people) have_trait) probs
                     (powerset (names_of people))
              else Inr probs)"
  using fails_evidence_entries [OF assms subset_refl, of have_trait]
  by (simp add: have_trait_body_def names_of_def)

theorem evidence_filter_witness:
  "distinct (map fst family) \<and>
   admissible family {''James''} \<and> admissible family {''Harry'', ''James''} \<and>
   \<not> admissible family {''Lily''} \<and> \<not> admissible family {} \<and>
   fails_evidence family (names_of family) {''James''} = Inr False \<and>
   fails_evidence family (names_of family) {''Lily''} = Inr True \<and>
   have_trait_body family (names_of family) (init_probabilities family) {''Lily''}
     = Inr (init_probabilities family)"
proof -
  have d: "distinct (map fst family)"
    by (simp add: family_def)
  have a: "admissible family {''James''}" "admissible family {''Harry'', ''James''}"
    "\<not> admissible family {''Lily''}" "\<not> admissible family {}"
    by (simp_all add: admissible_def family_def harry_def james_def lily_def)
  from evidence_filter [OF d, of "{''James''}"] evidence_filter [OF d, of "{''Lily''}"] d a
  show ?thesis by simp
qed

subsection \<open>The gene hypotheses\<close>









subsection \<open>The accumulated table and its normalisation\<close>

lemma admissible_consistent:
  "admissible people have_trait \<Longrightarrow> consistent people have_trait"
proof -
  assume a: "admissible people have_trait"
  have "(n \<in> have_trait) = t" if "observed people n = Some t" for n t
  proof -
    from that obtain entry where m: "map_of people n = Some entry" and t: "trait entry = Some t"
      by (auto simp: observed_def split: option.splits)
    from m have "(n, entry) \<in> set people" by (rule map_of_SomeD)
    with a have "case trait (snd (n, entry)) of None \<Rightarrow> True
        | Some t \<Rightarrow> (fst (n, entry) \<in> have_trait) = t"
      unfolding admissible_def list_all_iff by blast
    with t show ?thesis by simp
  qed
  then show ?thesis by (simp add: consistent_def)
qed

lemma update_entry_ok:
  assumes "entry_ok people S e" "0 \<le> p" "consistent people ht"
  shows "\<exists>e'. update_entry one two ht p e = Inr e' \<and> fst e' = fst e \<and>
              entry_ok people (S + p) e'"
proof -
  from assms(1) obtain a b c t f where
    e: "snd e = \<lparr> gene_dist = [(2, a), (1, b), (0, c)],
                  trait_dist = [(True, t), (False, f)] \<rparr>"
    and nn: "0 \<le> a" "0 \<le> b" "0 \<le> c" "0 \<le> t" "0 \<le> f"
    and s: "a + b + c = S" "t + f = S"
    and o: "observed people (fst e) = Some True \<longrightarrow> f = 0"
           "observed people (fst e) = Some False \<longrightarrow> t = 0"
    unfolding entry_ok_def by blast
  let ?k = "get_nbr_genes (Some (fst e)) one two"
  let ?g = "[(2, if ?k = 2 then a + p else a), (1, if ?k = 1 then b + p else b),
             (0, if ?k = 0 then c + p else c)]"
  let ?t = "[(True, if fst e \<in> ht then t + p else t),
             (False, if fst e \<in> ht then f else f + p)]"
  have k: "?k = 0 \<or> ?k = 1 \<or> ?k = 2" by (rule get_nbr_genes_cases)
  have g: "add_at ?k p (gene_dist (snd e)) = Inr ?g"
    using k e by (auto simp: add_at_def)
  have t: "add_at (get_trait (fst e) ht) p (trait_dist (snd e)) = Inr ?t"
    using e by (simp add: add_at_def get_trait_def)
  have u: "update_entry one two ht p e = Inr (fst e, \<lparr> gene_dist = ?g, trait_dist = ?t \<rparr>)"
    using g t by (simp add: update_entry_def Let_def)
  have c1: "observed people (fst e) = Some True \<Longrightarrow> fst e \<in> ht"
    and c2: "observed people (fst e) = Some False \<Longrightarrow> fst e \<notin> ht"
    using assms(3) by (auto simp: consistent_def)
  have "entry_ok people (S + p) (fst e, \<lparr> gene_dist = ?g, trait_dist = ?t \<rparr>)"
    unfolding entry_ok_def
    apply (rule exI [of _ "if ?k = 2 then a + p else a"])
    apply (rule exI [of _ "if ?k = 1 then b + p else b"])
    apply (rule exI [of _ "if ?k = 0 then c + p else c"])
    apply (rule exI [of _ "if fst e \<in> ht then t + p else t"])
    apply (rule exI [of _ "if fst e \<in> ht then f else f + p"])
    using k nn s o c1 c2 assms(2) by auto
  with u show ?thesis by simp
qed

lemma update_ok:
  assumes "0 \<le> p" "consistent people ht"
  shows "list_all (entry_ok people S) es \<Longrightarrow>
    \<exists>es'. update es one two ht p = Inr es' \<and> map fst es' = map fst es \<and>
          list_all (entry_ok people (S + p)) es'"
proof (induction es)
  case Nil
  then show ?case by simp
next
  case (Cons e es)
  from Cons.prems have "entry_ok people S e" by simp
  from update_entry_ok [OF this assms, of one two] obtain e' where
    e': "update_entry one two ht p e = Inr e'" "fst e' = fst e" "entry_ok people (S + p) e'"
    by blast
  from Cons obtain es' where
    es': "update es one two ht p = Inr es'" "map fst es' = map fst es"
      "list_all (entry_ok people (S + p)) es'"
    by auto
  from e' es' show ?case by simp
qed

lemma for_loop_reach:
  assumes "\<And>s x. x \<in> set xs \<Longrightarrow> J s \<Longrightarrow>
             \<exists>s'. body s x = Inr s' \<and> J s' \<and> (K s \<or> good x \<longrightarrow> K s')"
  shows "J s \<Longrightarrow> K s \<or> (\<exists>x\<in>set xs. good x) \<Longrightarrow>
         \<exists>s'. for_loop body s xs = Inr s' \<and> J s' \<and> K s'"
  using assms
proof (induction xs arbitrary: s)
  case Nil
  then show ?case by simp
next
  case (Cons x xs)
  from Cons.prems(3) [of x s] Cons.prems(1) obtain s1 where
    s1: "body s x = Inr s1" "J s1" "K s \<or> good x \<longrightarrow> K s1" by auto
  from Cons.prems(2) s1(3) have "K s1 \<or> (\<exists>y\<in>set xs. good y)" by auto
  from Cons.IH [OF s1(2) this] Cons.prems(3) obtain s' where
    "for_loop body s1 xs = Inr s'" "J s'" "K s'" by auto
  with s1(1) show ?case by simp
qed

lemma mass_gt_ge: "mass_gt people probs \<Longrightarrow> mass_ge people probs"
  unfolding mass_gt_def mass_ge_def by (meson less_imp_le)

lemma hypothesis_body_ok:
  assumes "mass_ge people probs" "consistent people ht"
  shows "\<exists>probs'. hypothesis_body people ht one probs two = Inr probs' \<and>
                  mass_gt people probs'"
proof -
  from assms(1) obtain S where S: "0 \<le> S" "table_ok people S probs"
    unfolding mass_ge_def by blast
  have "\<exists>p. joint_probability people one two ht = Inr p \<and> 0 < p"
    unfolding joint_probability_def by (rule joint_loop_pos) simp_all
  then obtain p where p: "joint_probability people one two ht = Inr p" "0 < p" by blast
  from S(2) have "list_all (entry_ok people S) probs" by (simp add: table_ok_def)
  from update_ok [OF _ assms(2) this, of p one two] p(2) obtain probs' where
    u: "update probs one two ht p = Inr probs'" "map fst probs' = map fst probs"
      "list_all (entry_ok people (S + p)) probs'"
    by auto
  from u(2,3) S(2) have "table_ok people (S + p) probs'" by (simp add: table_ok_def)
  moreover have "0 < S + p" using S(1) p(2) by simp
  ultimately have "mass_gt people probs'" unfolding mass_gt_def by blast
  with p(1) u(1) show ?thesis by (simp add: hypothesis_body_def)
qed

lemma empty_in_powerset: "{} \<in> set (powerset xs)"
  by (simp add: set_powerset)

lemma one_gene_body_ok:
  assumes "mass_ge people probs" "consistent people ht"
  shows "\<exists>probs'. one_gene_body people names ht probs one = Inr probs' \<and>
                  mass_gt people probs'"
proof -
  have "\<exists>s'. for_loop (hypothesis_body people ht one) probs
               (powerset (names_minus names one)) = Inr s' \<and>
             mass_ge people s' \<and> mass_gt people s'"
  proof (rule for_loop_reach [where good = "\<lambda>_. True"])
    fix s x assume "mass_ge people s"
    from hypothesis_body_ok [OF this assms(2), of one x]
    show "\<exists>s'. hypothesis_body people ht one s x = Inr s' \<and> mass_ge people s' \<and>
               (mass_gt people s \<or> True \<longrightarrow> mass_gt people s')"
      by (auto intro: mass_gt_ge)
  next
    show "mass_ge people probs" by (rule assms(1))
  next
    show "mass_gt people probs \<or> (\<exists>x\<in>set (powerset (names_minus names one)). True)"
      using empty_in_powerset by blast
  qed
  then show ?thesis by (auto simp: one_gene_body_def)
qed

lemma gene_loops_ok:
  assumes "mass_ge people probs" "consistent people ht"
  shows "\<exists>probs'. for_loop (one_gene_body people names ht) probs (powerset names)
                    = Inr probs' \<and> mass_gt people probs'"
proof -
  have "\<exists>s'. for_loop (one_gene_body people names ht) probs (powerset names) = Inr s' \<and>
             mass_ge people s' \<and> mass_gt people s'"
  proof (rule for_loop_reach [where good = "\<lambda>_. True"])
    fix s x assume "mass_ge people s"
    from one_gene_body_ok [OF this assms(2), of names x]
    show "\<exists>s'. one_gene_body people names ht s x = Inr s' \<and> mass_ge people s' \<and>
               (mass_gt people s \<or> True \<longrightarrow> mass_gt people s')"
      by (auto intro: mass_gt_ge)
  next
    show "mass_ge people probs" by (rule assms(1))
  next
    show "mass_gt people probs \<or> (\<exists>x\<in>set (powerset names). True)"
      using empty_in_powerset by blast
  qed
  then show ?thesis by auto
qed

lemma have_trait_body_ok:
  assumes "distinct (map fst people)" "mass_ge people probs"
  shows "\<exists>probs'. have_trait_body people (names_of people) probs ht = Inr probs' \<and>
           mass_ge people probs' \<and>
           (mass_gt people probs \<or> admissible people ht \<longrightarrow> mass_gt people probs')"
proof -
  have f: "fails_evidence people (names_of people) ht = Inr (\<not> admissible people ht)"
    using fails_evidence_entries [OF assms(1) subset_refl, of ht] by (simp add: names_of_def)
  show ?thesis
  proof (cases "admissible people ht")
    case True
    from gene_loops_ok [OF assms(2) admissible_consistent [OF True], of "names_of people"]
    show ?thesis using f True by (auto simp: have_trait_body_def intro: mass_gt_ge)
  next
    case False
    with f assms(2) show ?thesis by (simp add: have_trait_body_def)
  qed
qed

lemma observed_entry:
  "distinct (map fst people) \<Longrightarrow> e \<in> set people \<Longrightarrow> observed people (fst e) = trait (snd e)"
  by (cases e) (simp add: observed_def)

lemma admissible_observed_true:
  assumes "distinct (map fst people)"
  shows "admissible people (observed_true people)"
proof -
  have "case trait (snd e) of None \<Rightarrow> True
        | Some t \<Rightarrow> (fst e \<in> observed_true people) = t" if "e \<in> set people" for e
    using observed_entry [OF assms that] that
    by (auto simp: observed_true_def names_of_def split: option.splits)
  then show ?thesis by (simp add: admissible_def list_all_iff)
qed

lemma init_ok: "table_ok people 0 (init_probabilities people)"
  by (simp add: table_ok_def init_probabilities_def entry_ok_def list_all_iff comp_def)

lemma accumulate_ok:
  assumes "distinct (map fst people)"
  shows "\<exists>probs. accumulate people = Inr probs \<and> mass_gt people probs"
proof -
  have "\<exists>s'. for_loop (have_trait_body people (names_of people)) (init_probabilities people)
               (powerset (names_of people)) = Inr s' \<and>
             mass_ge people s' \<and> mass_gt people s'"
  proof (rule for_loop_reach [where good = "admissible people"])
    fix s x assume "mass_ge people s"
    from have_trait_body_ok [OF assms this, of x]
    show "\<exists>s'. have_trait_body people (names_of people) s x = Inr s' \<and> mass_ge people s' \<and>
               (mass_gt people s \<or> admissible people x \<longrightarrow> mass_gt people s')" .
  next
    show "mass_ge people (init_probabilities people)"
      unfolding mass_ge_def using init_ok [of people] by auto
  next
    have "observed_true people \<in> set (powerset (names_of people))"
      by (auto simp: set_powerset observed_true_def)
    with admissible_observed_true [OF assms]
    show "mass_gt people (init_probabilities people) \<or>
        (\<exists>x\<in>set (powerset (names_of people)). admissible people x)" by blast
  qed
  then show ?thesis by (auto simp: accumulate_def)
qed

lemma normalize_entry_ok:
  assumes "entry_ok people S e" "0 < S"
  shows "\<exists>e'. normalize_entry e = Inr e' \<and> fst e' = fst e \<and> entry_ok people 1 e'"
proof -
  from assms(1) obtain a b c t f where
    e: "snd e = \<lparr> gene_dist = [(2, a), (1, b), (0, c)],
                  trait_dist = [(True, t), (False, f)] \<rparr>"
    and nn: "0 \<le> a" "0 \<le> b" "0 \<le> c" "0 \<le> t" "0 \<le> f"
    and s: "a + b + c = S" "t + f = S"
    and o: "observed people (fst e) = Some True \<longrightarrow> f = 0"
           "observed people (fst e) = Some False \<longrightarrow> t = 0"
    unfolding entry_ok_def by blast
  have g: "normalize_dist (gene_dist (snd e)) = Inr [(2, a / S), (1, b / S), (0, c / S)]"
    using e s(1) assms(2) by (simp add: normalize_dist_def add.assoc)
  have t: "normalize_dist (trait_dist (snd e)) = Inr [(True, t / S), (False, f / S)]"
    using e s(2) assms(2) by (simp add: normalize_dist_def)
  have u: "normalize_entry e = Inr (fst e, \<lparr> gene_dist = [(2, a / S), (1, b / S), (0, c / S)],
                                            trait_dist = [(True, t / S), (False, f / S)] \<rparr>)"
    using g t by (simp add: normalize_entry_def)
  have sg: "a / S + b / S + c / S = 1"
    using s(1) assms(2) by (simp add: add_divide_distrib [symmetric])
  have st: "t / S + f / S = 1"
    using s(2) assms(2) by (simp add: add_divide_distrib [symmetric])
  have "entry_ok people 1 (fst e, \<lparr> gene_dist = [(2, a / S), (1, b / S), (0, c / S)],
                                     trait_dist = [(True, t / S), (False, f / S)] \<rparr>)"
    unfolding entry_ok_def
    apply (rule exI [of _ "a / S"])
    apply (rule exI [of _ "b / S"])
    apply (rule exI [of _ "c / S"])
    apply (rule exI [of _ "t / S"])
    apply (rule exI [of _ "f / S"])
    using nn sg st o assms(2) by simp
  with u show ?thesis by simp
qed

lemma normalize_ok:
  assumes "0 < S"
  shows "list_all (entry_ok people S) es \<Longrightarrow>
    \<exists>es'. normalize es = Inr es' \<and> map fst es' = map fst es \<and>
          list_all (entry_ok people 1) es'"
proof (induction es)
  case Nil
  then show ?case by simp
next
  case (Cons e es)
  from Cons.prems have "entry_ok people S e" by simp
  from normalize_entry_ok [OF this assms] obtain e' where
    e': "normalize_entry e = Inr e'" "fst e' = fst e" "entry_ok people 1 e'" by blast
  from Cons obtain es' where
    es': "normalize es = Inr es'" "map fst es' = map fst es"
      "list_all (entry_ok people 1) es'"
    by auto
  from e' es' show ?case by simp
qed

lemma main_ok:
  assumes "distinct (map fst people)"
  shows "\<exists>acc probs. accumulate people = Inr acc \<and> mass_gt people acc \<and>
           main people = Inr probs \<and> table_ok people 1 probs"
proof -
  from accumulate_ok [OF assms] obtain acc where
    acc: "accumulate people = Inr acc" "mass_gt people acc" by blast
  from acc(2) obtain S where S: "0 < S" "table_ok people S acc"
    unfolding mass_gt_def by blast
  from S(2) have "list_all (entry_ok people S) acc" by (simp add: table_ok_def)
  from normalize_ok [OF S(1) this] obtain probs where
    n: "normalize acc = Inr probs" "map fst probs = map fst acc"
      "list_all (entry_ok people 1) probs" by blast
  from n(2,3) S(2) have "table_ok people 1 probs" by (simp add: table_ok_def)
  with acc n(1) show ?thesis by (simp add: main_def)
qed

lemma entry_ok_distribution:
  assumes "entry_ok people 1 e"
  shows "map fst (gene_dist (snd e)) = [2, 1, 0] \<and> distribution (gene_dist (snd e)) \<and>
         map fst (trait_dist (snd e)) = [True, False] \<and> distribution (trait_dist (snd e))"
proof -
  from assms obtain a b c t f where
    e: "snd e = \<lparr> gene_dist = [(2, a), (1, b), (0, c)],
                  trait_dist = [(True, t), (False, f)] \<rparr>"
    and nn: "0 \<le> a" "0 \<le> b" "0 \<le> c" "0 \<le> t" "0 \<le> f"
    and s: "a + b + c = 1" "t + f = 1"
    unfolding entry_ok_def by blast
  from nn s have "a \<le> 1" "b \<le> 1" "c \<le> 1" "t \<le> 1" "f \<le> 1" by linarith+
  with e nn s show ?thesis by (simp add: distribution_def add.assoc)
qed

text \<open>
  Claim C5. For every population, whatever the evidence, \<open>main\<close> ends without an error,
  and in the table that \<open>normalize\<close> leaves every person's gene-count distribution over
  2, 1, 0 and trait distribution over true, false each sums to 1 with every entry in
  \<open>[0,1]\<close>.
\<close>

theorem normalized_distributions:
  assumes "distinct (map fst people)"
  shows "\<exists>probs. main people = Inr probs \<and> map fst probs = map fst people \<and>
           list_all (\<lambda>e. map fst (gene_dist (snd e)) = [2, 1, 0] \<and>
                         distribution (gene_dist (snd e)) \<and>
                         map fst (trait_dist (snd e)) = [True, False] \<and>
                         distribution (trait_dist (snd e))) probs"
proof -
  from main_ok [OF assms] obtain probs where
    p: "main people = Inr probs" "table_ok people 1 probs" by blast
  from p(2) have "map fst probs = map fst people" "list_all (entry_ok people 1) probs"
    by (simp_all add: table_ok_def)
  with p(1) show ?thesis
    using entry_ok_distribution [of people] by (auto simp: list_all_iff)
qed

lemma table_entry:
  assumes "table_ok people S probs" "(n, entry) \<in> set people"
  shows "\<exists>d. map_of probs n = Some d \<and> entry_ok people S (n, d)"
proof -
  from assms have "n \<in> fst ` set probs"
    by (metis table_ok_def set_map image_eqI fst_conv)
  then obtain d where d: "map_of probs n = Some d"
    by (cases "map_of probs n") (auto simp: map_of_eq_None_iff)
  then have "(n, d) \<in> set probs" by (rule map_of_SomeD)
  with assms(1) have "entry_ok people S (n, d)"
    by (auto simp: table_ok_def list_all_iff)
  with d show ?thesis by blast
qed

text \<open>
  Claim C6. For a person whose trait is observed, every admissible hypothesis gives the
  person the observed value, the accumulated bucket of the opposite value is exactly 0,
  and the normalised trait distribution puts 1 on the observed value and 0 on the other.
\<close>

theorem known_trait_point_mass:
  assumes "distinct (map fst people)" "(n, entry) \<in> set people" "trait entry = Some t"
  shows "(\<forall>ht. admissible people ht \<longrightarrow> get_trait n ht = t) \<and>
         (\<exists>acc d. accumulate people = Inr acc \<and> map_of acc n = Some d \<and>
                   map_of (trait_dist d) (\<not> t) = Some 0) \<and>
         (\<exists>probs d. main people = Inr probs \<and> map_of probs n = Some d \<and>
                   trait_dist d = [(True, if t then 1 else 0), (False, if t then 0 else 1)])"
proof -
  have o: "observed people n = Some t"
    using observed_entry [OF assms(1,2)] assms(3) by simp
  have a: "\<forall>ht. admissible people ht \<longrightarrow> get_trait n ht = t"
    using o admissible_consistent by (auto simp: consistent_def get_trait_def)
  from main_ok [OF assms(1)] obtain acc probs where
    m: "accumulate people = Inr acc" "mass_gt people acc"
       "main people = Inr probs" "table_ok people 1 probs" by blast
  from m(2) obtain S where S: "table_ok people S acc" unfolding mass_gt_def by blast
  from table_entry [OF S assms(2)] obtain d where
    d: "map_of acc n = Some d" "entry_ok people S (n, d)" by blast
  from d(2) o have "map_of (trait_dist d) (\<not> t) = Some 0"
    unfolding entry_ok_def by (cases t) auto
  with m(1) d(1) have b: "\<exists>acc d. accumulate people = Inr acc \<and> map_of acc n = Some d \<and>
                   map_of (trait_dist d) (\<not> t) = Some 0" by blast
  from table_entry [OF m(4) assms(2)] obtain d' where
    d': "map_of probs n = Some d'" "entry_ok people 1 (n, d')" by blast
  from d'(2) o have "trait_dist d' = [(True, if t then 1 else 0), (False, if t then 0 else 1)]"
    unfolding entry_ok_def by (cases t) auto
  with m(3) d'(1) have c: "\<exists>probs d. main people = Inr probs \<and> map_of probs n = Some d \<and>
       trait_dist d = [(True, if t then 1 else 0), (False, if t then 0 else 1)]" by blast
  from a b c show ?thesis by blast
qed

lemma main_lily:
  "main [(''Lily'', lily)] =
   Inr [(''Lily'',
       \<lparr>gene_dist = [(2, 35 / 9671), (1, 132 / 9671), (0, 9504 / 9671)],
          trait_dist = [(True, 0), (False, 1)]\<rparr>)]"
  by code_simp

theorem normalized_distributions_witness:
  "distinct (map fst [(''Lily'', lily)]) \<and>
   main [(''Lily'', lily)] =
     Inr [(''Lily'',
       \<lparr>gene_dist = [(2, 35 / 9671), (1, 132 / 9671), (0, 9504 / 9671)],
          trait_dist = [(True, 0), (False, 1)]\<rparr>)] \<and>
   distribution [(2::nat, 35 / 9671), (1, 132 / 9671), (0, 9504 / 9671)] \<and>
   distribution [(True, 0), (False, 1)]"
proof -
  have d: "distinct (map fst [(''Lily'', lily)])" by simp
  from normalized_distributions [OF d] obtain probs where
    p: "main [(''Lily'', lily)] = Inr probs"
       "list_all (\<lambda>e. map fst (gene_dist (snd e)) = [2, 1, 0] \<and>
                         distribution (gene_dist (snd e)) \<and>
                         map fst (trait_dist (snd e)) = [True, False] \<and>
                         distribution (trait_dist (snd e))) probs"
    by blast
  from p(1) have "probs = [(''Lily'',
       \<lparr>gene_dist = [(2, 35 / 9671), (1, 132 / 9671), (0, 9504 / 9671)],
          trait_dist = [(True, 0), (False, 1)]\<rparr>)]"
    by (simp add: main_lily)
  with p(2) have "distribution [(2::nat, 35 / 9671), (1, 132 / 9671), (0, 9504 / 9671)]"
    "distribution [(True, 0), (False, 1)]"
    by simp_all
  with d main_lily show ?thesis by blast
qed

theorem known_trait_point_mass_witness:
  "distinct (map fst family) \<and> (''James'', james) \<in> set family \<and> trait james = Some True \<and>
   (\<exists>acc d. accumulate family = Inr acc \<and> map_of acc ''James'' = Some d \<and>
             map_of (trait_dist d) False = Some 0) \<and>
   (\<exists>probs d. main family = Inr probs \<and> map_of probs ''James'' = Some d \<and>
             trait_dist d = [(True, 1), (False, 0)]) \<and>
   admissible family {''James''} \<and> get_trait ''James'' {''James''}"
proof -
  have d: "distinct (map fst family)" by (simp add: family_def)
  have m: "(''James'', james) \<in> set family" by (simp add: family_def)
  have t: "trait james = Some True" by (simp add: james_def)
  have a: "admissible family {''James''}"
    by (simp add: admissible_def family_def harry_def james_def lily_def)
  note k = known_trait_point_mass [OF d m t]
  from k a have g: "get_trait ''James'' {''James''}" by blast
  from k have b: "\<exists>acc d. accumulate family = Inr acc \<and> map_of acc ''James'' = Some d \<and>
             map_of (trait_dist d) False = Some 0" by simp
  from k have c: "\<exists>probs d. main family = Inr probs \<and> map_of probs ''James'' = Some d \<and>
             trait_dist d = [(True, 1), (False, 0)]" by simp
  from d m t a g b c show ?thesis by blast
qed

end
